theory Spec2Isabelle
  imports Main "HOL-Library.Sublist"
begin

section \<open>The audio session controller of the voice changer page\<close>

text \<open>
  The repository is one Flask script, \<^verbatim>\<open>src/s.py\<close>, that serves a fixed page. All the
  behaviour lives in the page's script (lines 164--358 of the file): nine global
  variables, four buttons, a drop zone, a status paragraph, and handlers that drive the
  browser's Web Audio engine. The model below is a state record holding
  \<^item> the script's globals, under their own names,
  \<^item> the DOM properties the script writes (the \<^verbatim>\<open>disabled\<close> flag of each button, the
    \<^verbatim>\<open>dragover\<close> class of the drop zone, the status text),
  \<^item> the part of the browser the script acts on: the connections of the audio graph,
    the capture streams whose tracks are live, the requested animation frames, the
    buffer sources that are playing, the promises and callbacks still outstanding, and
    whether the browser has \<^verbatim>\<open>requestFullscreen\<close>, and the list of browser calls
    made so far, in order.

  Every object the browser hands out (context, stream, node, frame handle) is named by
  a number taken from a counter, so that a new object differs from every older one.
  A global that is \<^verbatim>\<open>undefined\<close> or \<^verbatim>\<open>null\<close> is \<open>None\<close>.
\<close>

type_synonym audio_buffer = "nat list"

datatype node =
    Destination nat
  | MediaStreamSource nat
  | DelayN nat
  | AnalyserN nat
  | BufferSource nat

datatype api_call =
    NewAudioContext nat
  | GetUserMedia
  | CreateMediaStreamSource nat nat
  | CreateDelay nat
  | CreateAnalyser nat
  | CreateBufferSource nat
  | Connect node node
  | Disconnect node
  | TrackStop nat
  | RequestAnimationFrame nat
  | CancelAnimationFrame nat
  | SourceStart nat
  | SourceStop nat
  | ReadAsArrayBuffer
  | DecodeAudioData
  | ConsoleError string
  | RequestFullscreen

record state =
  audioContext :: "nat option"
  micStream :: "nat option"
  micSource :: "nat option"
  delayNode :: "nat option"
  analyserNode :: "nat option"
  droppedAudioBuffer :: "audio_buffer option"
  droppedAudioSource :: "nat option"
  isDelayEnabled :: bool
  animationId :: "nat option"
  startMicBtn_disabled :: bool
  stopMicBtn_disabled :: bool
  toggleDelayBtn_disabled :: bool
  playAudioBtn_disabled :: bool
  dropZone_dragover :: bool
  statusMessage :: string
  connections :: "(node \<times> node) set"
  live_streams :: "nat set"
  frame_requests :: "nat set"
  playing :: "nat set"
  source_buffer :: "(nat \<times> audio_buffer) list"
  pending_gum :: nat
  pending_reads :: nat
  pending_decodes :: nat
  fullscreen_api :: bool
  calls :: "api_call list"
  next_id :: nat

text \<open>
  The page as it is loaded: lines 151--154 give the \<^verbatim>\<open>disabled\<close> attribute to the stop,
  toggle and play buttons and not to the start button; lines 171--179 leave every global
  undefined except \<^verbatim>\<open>droppedAudioBuffer = null\<close>, \<^verbatim>\<open>droppedAudioSource = null\<close> and
  \<^verbatim>\<open>isDelayEnabled = false\<close>. Handles start at 1 (a frame handle is never 0). The
  browser of \<open>initial_state\<close> has the fullscreen API; the same page in a browser
  without it is \<open>initial_state\<lparr>fullscreen_api := False\<rparr>\<close>.
\<close>

definition initial_state :: state where
  "initial_state =
     \<lparr> audioContext = None, micStream = None, micSource = None, delayNode = None,
       analyserNode = None, droppedAudioBuffer = None, droppedAudioSource = None,
       isDelayEnabled = False, animationId = None,
       startMicBtn_disabled = False, stopMicBtn_disabled = True,
       toggleDelayBtn_disabled = True, playAudioBtn_disabled = True,
       dropZone_dragover = False, statusMessage = [],
       connections = {}, live_streams = {}, frame_requests = {}, playing = {},
       source_buffer = [], pending_gum = 0, pending_reads = 0, pending_decodes = 0,
       fullscreen_api = True, calls = [], next_id = 1 \<rparr>"

text \<open>
  A handler either returns or throws; what it wrote before throwing stays written.
\<close>

datatype outcome = Returned state | Threw state

fun state_of :: "outcome \<Rightarrow> state" where
  "state_of (Returned s) = s"
| "state_of (Threw s) = s"

subsection \<open>Browser primitives\<close>

definition call :: "api_call \<Rightarrow> state \<Rightarrow> state" where
  "call c s = s\<lparr>calls := calls s @ [c]\<rparr>"

text \<open>\<^verbatim>\<open>a.connect(b)\<close> adds one connection; \<^verbatim>\<open>a.disconnect()\<close>, without argument,
  removes every outgoing connection of \<^verbatim>\<open>a\<close>.\<close>

definition connect :: "node \<Rightarrow> node \<Rightarrow> state \<Rightarrow> state" where
  "connect a b s = (call (Connect a b) s)\<lparr>connections := insert (a, b) (connections s)\<rparr>"

definition disconnect :: "node \<Rightarrow> state \<Rightarrow> state" where
  "disconnect a s =
     (call (Disconnect a) s)\<lparr>connections := Set.filter (\<lambda>e. fst e \<noteq> a) (connections s)\<rparr>"

text \<open>Lines 217--219 and 267--269: \<^verbatim>\<open>if (!audioContext) audioContext = new ...\<close>.\<close>

definition ensureAudioContext :: "state \<Rightarrow> state" where
  "ensureAudioContext s =
     (case audioContext s of
        Some c \<Rightarrow> s
      | None \<Rightarrow> (call (NewAudioContext (next_id s)) s)
                  \<lparr>audioContext := Some (next_id s), next_id := Suc (next_id s)\<rparr>)"

subsection \<open>Waveform loop (lines 237--261)\<close>

text \<open>
  \<^verbatim>\<open>drawWaveform\<close> first requests the next frame and stores its handle, then reads
  \<^verbatim>\<open>analyserNode.fftSize\<close>, which throws when there is no analyser. The painting of the
  canvas and \<^verbatim>\<open>resizeCanvas\<close> write nothing the handlers read and are left out.
\<close>

definition drawWaveform :: "state \<Rightarrow> outcome" where
  "drawWaveform s =
     (let h = next_id s;
          s1 = (call (RequestAnimationFrame h) s)
                 \<lparr>animationId := Some h, frame_requests := insert h (frame_requests s),
                  next_id := Suc h\<rparr>
      in case analyserNode s1 of None \<Rightarrow> Threw s1 | Some a \<Rightarrow> Returned s1)"

text \<open>Lines 192--196: fullscreen is requested only where the browser has the method.\<close>

definition goFullscreen :: "state \<Rightarrow> state" where
  "goFullscreen s = (if fullscreen_api s then call RequestFullscreen s else s)"

subsection \<open>Microphone (lines 264--314)\<close>

datatype gum_result = Granted | Denied

text \<open>The \<^verbatim>\<open>catch\<close> block of \<^verbatim>\<open>startMicrophone\<close> (lines 298--301).\<close>

definition startMicrophone_catch :: "state \<Rightarrow> state" where
  "startMicrophone_catch s =
     (call (ConsoleError ''Error accessing microphone'') s)
       \<lparr>statusMessage := ''Error accessing microphone.''\<rparr>"

text \<open>
  \<^verbatim>\<open>startMicrophone\<close> is an \<^verbatim>\<open>async\<close> function with one \<^verbatim>\<open>await\<close>. What runs at the
  click is the part up to the \<^verbatim>\<open>await\<close> (lines 265--271): the context is created if
  absent and \<^verbatim>\<open>getUserMedia\<close> is called.
\<close>

definition startMicrophone_begin :: "state \<Rightarrow> state" where
  "startMicrophone_begin s =
     (let s1 = ensureAudioContext s
      in (call GetUserMedia s1)\<lparr>pending_gum := Suc (pending_gum s1)\<rparr>)"

text \<open>
  The \<^verbatim>\<open>try\<close> block after the \<^verbatim>\<open>await\<close> (lines 272--297), statement by statement.
  Each statement reads the globals it names, as the script does, and throws where the
  script would: a property or method of \<^verbatim>\<open>undefined\<close>, or \<^verbatim>\<open>connect(undefined)\<close>.
  Setting \<^verbatim>\<open>delayTime\<close> and \<^verbatim>\<open>fftSize\<close> changes nothing the handlers read.
\<close>

fun exec :: "(state \<Rightarrow> outcome) list \<Rightarrow> state \<Rightarrow> outcome" where
  "exec [] s = Returned s"
| "exec (f # fs) s = (case f s of Threw s' \<Rightarrow> Threw s' | Returned s' \<Rightarrow> exec fs s')"

definition assign_micStream :: "nat \<Rightarrow> state \<Rightarrow> outcome" where
  "assign_micStream st s = Returned (s\<lparr>micStream := Some st\<rparr>)"

definition createMediaStreamSource :: "nat \<Rightarrow> state \<Rightarrow> outcome" where
  "createMediaStreamSource st s =
     (case audioContext s of
        None \<Rightarrow> Threw s
      | Some c \<Rightarrow>
          Returned ((call (CreateMediaStreamSource (next_id s) st) s)
                      \<lparr>micSource := Some (next_id s), next_id := Suc (next_id s)\<rparr>))"

definition createDelay :: "state \<Rightarrow> outcome" where
  "createDelay s =
     (case audioContext s of
        None \<Rightarrow> Threw s
      | Some c \<Rightarrow>
          Returned ((call (CreateDelay (next_id s)) s)
                      \<lparr>delayNode := Some (next_id s), next_id := Suc (next_id s)\<rparr>))"

definition createAnalyser :: "state \<Rightarrow> outcome" where
  "createAnalyser s =
     (case audioContext s of
        None \<Rightarrow> Threw s
      | Some c \<Rightarrow>
          Returned ((call (CreateAnalyser (next_id s)) s)
                      \<lparr>analyserNode := Some (next_id s), next_id := Suc (next_id s)\<rparr>))"

text \<open>Line 284: \<^verbatim>\<open>micSource.connect(analyserNode)\<close>.\<close>

definition connect_analyser :: "state \<Rightarrow> outcome" where
  "connect_analyser s =
     (case micSource s of
        None \<Rightarrow> Threw s
      | Some src \<Rightarrow>
          (case analyserNode s of
             None \<Rightarrow> Threw s
           | Some a \<Rightarrow> Returned (connect (MediaStreamSource src) (AnalyserN a) s)))"

text \<open>
  Lines 287--291. In \<^verbatim>\<open>micSource.connect(delayNode).connect(audioContext.destination)\<close>
  the first \<^verbatim>\<open>connect\<close> returns its argument, so the second one connects the delay
  node; \<^verbatim>\<open>audioContext.destination\<close> is read after the first connection is made.
\<close>

definition route_on_start :: "state \<Rightarrow> outcome" where
  "route_on_start s =
     (case micSource s of
        None \<Rightarrow> Threw s
      | Some src \<Rightarrow>
          if isDelayEnabled s then
            (case delayNode s of
               None \<Rightarrow> Threw s
             | Some d \<Rightarrow>
                 (let s1 = connect (MediaStreamSource src) (DelayN d) s in
                  case audioContext s1 of
                    None \<Rightarrow> Threw s1
                  | Some c \<Rightarrow> Returned (connect (DelayN d) (Destination c) s1)))
          else
            (case audioContext s of
               None \<Rightarrow> Threw s
             | Some c \<Rightarrow> Returned (connect (MediaStreamSource src) (Destination c) s)))"

text \<open>Lines 293--295. The start button is not written here, nor anywhere else.\<close>

definition started_controls :: "state \<Rightarrow> outcome" where
  "started_controls s =
     Returned (s\<lparr>stopMicBtn_disabled := False, toggleDelayBtn_disabled := False,
                 statusMessage := ''Microphone started.''\<rparr>)"

definition startMicrophone_try :: "nat \<Rightarrow> state \<Rightarrow> outcome" where
  "startMicrophone_try stream =
     exec [assign_micStream stream, createMediaStreamSource stream, createDelay,
           createAnalyser, connect_analyser, route_on_start, started_controls,
           drawWaveform, (\<lambda>s. Returned (goFullscreen s))]"

text \<open>
  The continuation runs when the promise settles: with a new stream whose tracks are
  live when it resolves, straight into the \<^verbatim>\<open>catch\<close> block when it rejects. A throw
  inside the \<^verbatim>\<open>try\<close> block ends in the \<^verbatim>\<open>catch\<close> block too, so the continuation
  itself never throws.
\<close>

definition startMicrophone_resume :: "gum_result \<Rightarrow> state \<Rightarrow> state" where
  "startMicrophone_resume r s0 =
     (let s = s0\<lparr>pending_gum := pending_gum s0 - 1\<rparr> in
      case r of
        Denied \<Rightarrow> startMicrophone_catch s
      | Granted \<Rightarrow>
          (let stream = next_id s;
               s1 = s\<lparr>live_streams := insert stream (live_streams s), next_id := Suc stream\<rparr>
           in case startMicrophone_try stream s1 of
                Returned s2 \<Rightarrow> s2
              | Threw s2 \<Rightarrow> startMicrophone_catch s2))"

text \<open>One whole invocation, with the browser's answer to the request as a parameter.\<close>

definition startMicrophone :: "gum_result \<Rightarrow> state \<Rightarrow> state" where
  "startMicrophone r s = startMicrophone_resume r (startMicrophone_begin s)"

text \<open>
  \<^verbatim>\<open>stopMicrophone\<close> (lines 304--314). \<^verbatim>\<open>if (animationId)\<close> is false for
  \<^verbatim>\<open>undefined\<close> and for 0.
\<close>

definition stopMicrophone :: "state \<Rightarrow> outcome" where
  "stopMicrophone s =
     (let s1 = (case micStream s of
                  None \<Rightarrow> s
                | Some st \<Rightarrow> (call (TrackStop st) s)\<lparr>live_streams := live_streams s - {st}\<rparr>);
          s2 = (case animationId s1 of
                  None \<Rightarrow> s1
                | Some h \<Rightarrow>
                    if h = 0 then s1
                    else (call (CancelAnimationFrame h) s1)
                           \<lparr>frame_requests := frame_requests s1 - {h}\<rparr>)
      in Returned (s2\<lparr>stopMicBtn_disabled := True, toggleDelayBtn_disabled := True,
                      statusMessage := ''Microphone stopped.''\<rparr>))"

subsection \<open>Delay toggle (lines 317--329)\<close>

text \<open>
  \<^verbatim>\<open>micSource.connect(delayNode).connect(audioContext.destination)\<close>: the first
  \<^verbatim>\<open>connect\<close> throws on an undefined \<^verbatim>\<open>delayNode\<close>; it returns its argument, so the
  second connects the delay node; \<^verbatim>\<open>audioContext.destination\<close> is read after the first
  connection is made and throws on an undefined context.
\<close>

definition toggleDelay :: "state \<Rightarrow> outcome" where
  "toggleDelay s =
     (let s1 = s\<lparr>isDelayEnabled := \<not> isDelayEnabled s\<rparr> in
      case micSource s1 of
        None \<Rightarrow> Returned s1
      | Some src \<Rightarrow>
          (let s2 = disconnect (MediaStreamSource src) s1 in
           if isDelayEnabled s2 then
             (case delayNode s2 of
                None \<Rightarrow> Threw s2
              | Some d \<Rightarrow>
                  (let s3 = connect (MediaStreamSource src) (DelayN d) s2 in
                   case audioContext s3 of
                     None \<Rightarrow> Threw s3
                   | Some c \<Rightarrow>
                       Returned ((connect (DelayN d) (Destination c) s3)
                                   \<lparr>statusMessage := ''Delay enabled.''\<rparr>)))
           else
             (case audioContext s2 of
                None \<Rightarrow> Threw s2
              | Some c \<Rightarrow>
                  Returned ((connect (MediaStreamSource src) (Destination c) s2)
                              \<lparr>statusMessage := ''Delay disabled.''\<rparr>))))"

subsection \<open>Dropped audio (lines 199--234 and 332--343)\<close>

definition playDroppedAudio :: "state \<Rightarrow> outcome" where
  "playDroppedAudio s =
     (case droppedAudioBuffer s of
        None \<Rightarrow> Returned s
      | Some b \<Rightarrow>
          (let s1 = (case droppedAudioSource s of
                       None \<Rightarrow> s
                     | Some p \<Rightarrow> (call (SourceStop p) s)\<lparr>playing := playing s - {p}\<rparr>)
           in case audioContext s1 of
                None \<Rightarrow> Threw s1
              | Some c \<Rightarrow>
                  (let n = next_id s1;
                       s2 = (call (CreateBufferSource n) s1)
                              \<lparr>droppedAudioSource := Some n, next_id := Suc n\<rparr>;
                       s3 = s2\<lparr>source_buffer := (n, b) # source_buffer s2\<rparr>;
                       s4 = connect (BufferSource n) (Destination c) s3;
                       s5 = (call (SourceStart n) s4)\<lparr>playing := insert n (playing s4)\<rparr>
                   in Returned (s5\<lparr>statusMessage := ''Playing dropped audio.''\<rparr>))))"

record dropped_file =
  file_type :: string
  file_bytes :: "nat list"

datatype decode_result = Decoded audio_buffer | DecodeError

definition dragover :: "state \<Rightarrow> state" where
  "dragover s = s\<lparr>dropZone_dragover := True\<rparr>"

definition dragleave :: "state \<Rightarrow> state" where
  "dragleave s = s\<lparr>dropZone_dragover := False\<rparr>"

text \<open>The \<^verbatim>\<open>drop\<close> listener itself (lines 206--234): only the first file is looked at,
  and an audio file is handed to a \<^verbatim>\<open>FileReader\<close>.\<close>

definition drop_handler :: "dropped_file list \<Rightarrow> state \<Rightarrow> state" where
  "drop_handler files s =
     (let s1 = s\<lparr>dropZone_dragover := False\<rparr> in
      case files of
        [] \<Rightarrow> s1
      | f # rest \<Rightarrow>
          if prefix ''audio/'' (file_type f)
          then (call ReadAsArrayBuffer s1)\<lparr>pending_reads := Suc (pending_reads s1)\<rparr>
          else s1\<lparr>statusMessage := ''Please drop a valid audio file.''\<rparr>)"

text \<open>\<^verbatim>\<open>reader.onload\<close> (lines 214--228) up to the call of \<^verbatim>\<open>decodeAudioData\<close>.\<close>

definition reader_onload :: "state \<Rightarrow> state" where
  "reader_onload s0 =
     (let s = s0\<lparr>pending_reads := pending_reads s0 - 1\<rparr>;
          s1 = ensureAudioContext s
      in (call DecodeAudioData s1)\<lparr>pending_decodes := Suc (pending_decodes s1)\<rparr>)"

text \<open>The two callbacks given to \<^verbatim>\<open>decodeAudioData\<close> (lines 220--227).\<close>

definition decode_callback :: "decode_result \<Rightarrow> state \<Rightarrow> state" where
  "decode_callback r s0 =
     (let s = s0\<lparr>pending_decodes := pending_decodes s0 - 1\<rparr> in
      case r of
        Decoded buffer \<Rightarrow>
          s\<lparr>droppedAudioBuffer := Some buffer, statusMessage := ''Audio file loaded.'',
            playAudioBtn_disabled := False\<rparr>
      | DecodeError \<Rightarrow>
          (call (ConsoleError ''Error decoding audio file'') s)
            \<lparr>statusMessage := ''Error decoding audio file.''\<rparr>)"

subsection \<open>The event loop\<close>

text \<open>
  The browser runs one handler at a time to completion (lines 346--349 register the
  four click listeners). A click reaches its listener only when the button is enabled.
  A settled promise, a finished read, a finished decode and a frame callback are
  delivered only when one is outstanding; a buffer source that plays to its end stops
  playing by itself.
\<close>

datatype event =
    DragOver
  | DragLeave
  | Drop "dropped_file list"
  | ReaderLoaded
  | DecodeSettled decode_result
  | StartClick
  | GumSettled gum_result
  | StopClick
  | ToggleClick
  | PlayClick
  | AnimationFrame nat
  | PlaybackEnded nat

fun handle :: "event \<Rightarrow> state \<Rightarrow> state" where
  "handle DragOver s = dragover s"
| "handle DragLeave s = dragleave s"
| "handle (Drop files) s = drop_handler files s"
| "handle ReaderLoaded s = (if pending_reads s = 0 then s else reader_onload s)"
| "handle (DecodeSettled r) s = (if pending_decodes s = 0 then s else decode_callback r s)"
| "handle StartClick s = (if startMicBtn_disabled s then s else startMicrophone_begin s)"
| "handle (GumSettled r) s = (if pending_gum s = 0 then s else startMicrophone_resume r s)"
| "handle StopClick s = (if stopMicBtn_disabled s then s else state_of (stopMicrophone s))"
| "handle ToggleClick s =
     (if toggleDelayBtn_disabled s then s else state_of (toggleDelay s))"
| "handle PlayClick s =
     (if playAudioBtn_disabled s then s else state_of (playDroppedAudio s))"
| "handle (AnimationFrame h) s =
     (if h \<in> frame_requests s
      then state_of (drawWaveform (s\<lparr>frame_requests := frame_requests s - {h}\<rparr>))
      else s)"
| "handle (PlaybackEnded p) s = s\<lparr>playing := playing s - {p}\<rparr>"

fun run :: "event list \<Rightarrow> state \<Rightarrow> state" where
  "run [] s = s"
| "run (e # es) s = run es (handle e s)"

subsection \<open>What the claims speak of\<close>

text \<open>The microphone is active when the script holds a capture stream whose tracks
  have not been stopped.\<close>

definition mic_active :: "state \<Rightarrow> bool" where
  "mic_active s = (case micStream s of None \<Rightarrow> False | Some st \<Rightarrow> st \<in> live_streams s)"

text \<open>The nodes the capture source feeds.\<close>

definition outputs_of :: "node \<Rightarrow> state \<Rightarrow> node set" where
  "outputs_of a s = snd ` Set.filter (\<lambda>e. fst e = a) (connections s)"

text \<open>The two routes to the destination of the one capture source held in
  \<^verbatim>\<open>micSource\<close>; a source left by an earlier start is not looked at here.\<close>

definition routed_direct :: "state \<Rightarrow> bool" where
  "routed_direct s =
     (case (micSource s, audioContext s) of
        (Some src, Some c) \<Rightarrow> (MediaStreamSource src, Destination c) \<in> connections s
      | _ \<Rightarrow> False)"

definition routed_delayed :: "state \<Rightarrow> bool" where
  "routed_delayed s =
     (case (micSource s, delayNode s, audioContext s) of
        (Some src, Some d, Some c) \<Rightarrow>
          (MediaStreamSource src, DelayN d) \<in> connections s \<and>
          (DelayN d, Destination c) \<in> connections s
      | _ \<Rightarrow> False)"

definition analyser_connected :: "state \<Rightarrow> bool" where
  "analyser_connected s =
     (case (micSource s, analyserNode s) of
        (Some src, Some a) \<Rightarrow> (MediaStreamSource src, AnalyserN a) \<in> connections s
      | _ \<Rightarrow> False)"









subsection \<open>The states the page can be in\<close>

fun node_id :: "node \<Rightarrow> nat" where
  "node_id (Destination n) = n"
| "node_id (MediaStreamSource n) = n"
| "node_id (DelayN n) = n"
| "node_id (AnalyserN n) = n"
| "node_id (BufferSource n) = n"

definition below :: "nat \<Rightarrow> nat option \<Rightarrow> bool" where
  "below n x = (\<forall>i \<in> set_option x. i < n)"

definition all_below :: "nat \<Rightarrow> nat set \<Rightarrow> bool" where
  "all_below n S = (\<forall>i \<in> S. i < n)"

definition edges_below :: "nat \<Rightarrow> (node \<times> node) set \<Rightarrow> bool" where
  "edges_below n E = (\<forall>e \<in> E. node_id (fst e) < n \<and> node_id (snd e) < n)"

text \<open>
  No handle is ahead of the counter; the start button is enabled; the globals that
  \<^verbatim>\<open>startMicrophone\<close> sets together are set together; a decoded buffer, an outstanding permission request and an
  outstanding decode each mean that the context exists; only the last buffer source
  created can be playing.
\<close>

definition handles_ok :: "state \<Rightarrow> bool" where
  "handles_ok s =
     (0 < next_id s \<and>
      below (next_id s) (audioContext s) \<and> below (next_id s) (micStream s) \<and>
      below (next_id s) (micSource s) \<and> below (next_id s) (delayNode s) \<and>
      below (next_id s) (analyserNode s) \<and> below (next_id s) (droppedAudioSource s) \<and>
      below (next_id s) (animationId s) \<and>
      edges_below (next_id s) (connections s) \<and>
      all_below (next_id s) (live_streams s) \<and>
      all_below (next_id s) (frame_requests s) \<and>
      all_below (next_id s) (playing s))"

definition globals_ok :: "state \<Rightarrow> bool" where
  "globals_ok s =
     (\<not> startMicBtn_disabled s \<and>
      (micStream s \<noteq> None \<longrightarrow> micSource s \<noteq> None) \<and>
      (micSource s \<noteq> None \<longrightarrow>
         delayNode s \<noteq> None \<and> analyserNode s \<noteq> None \<and> audioContext s \<noteq> None) \<and>
      (droppedAudioBuffer s \<noteq> None \<longrightarrow> audioContext s \<noteq> None) \<and>
      (0 < pending_gum s \<longrightarrow> audioContext s \<noteq> None) \<and>
      (0 < pending_decodes s \<longrightarrow> audioContext s \<noteq> None) \<and>
      (\<forall>p \<in> playing s. droppedAudioSource s = Some p))"

definition inv :: "state \<Rightarrow> bool" where
  "inv s = (handles_ok s \<and> globals_ok s)"

section \<open>Invariant\<close>

subsection \<open>No handle is ahead of the counter\<close>

lemmas prim_defs = call_def connect_def disconnect_def ensureAudioContext_def
lemmas stmt_defs = assign_micStream_def createMediaStreamSource_def createDelay_def
  createAnalyser_def connect_analyser_def route_on_start_def started_controls_def
  drawWaveform_def goFullscreen_def

lemma below_simps [simp]: "below n None" "below n (Some i) = (i < n)"
  by (simp_all add: below_def)

lemma below_Suc [simp]: "below n x \<Longrightarrow> below (Suc n) x"
  by (auto simp: below_def)

lemma all_below_simps [simp]:
  "all_below n {}" "all_below n (insert i S) = (i < n \<and> all_below n S)"
  by (auto simp: all_below_def)

lemma all_below_Suc [simp]: "all_below n S \<Longrightarrow> all_below (Suc n) S"
  by (auto simp: all_below_def)

lemma all_below_Diff [simp]: "all_below n S \<Longrightarrow> all_below n (S - T)"
  by (auto simp: all_below_def)

lemma edges_below_simps [simp]:
  "edges_below n {}"
  "edges_below n (insert (a, b) E) = (node_id a < n \<and> node_id b < n \<and> edges_below n E)"
  by (auto simp: edges_below_def)

lemma edges_below_Suc [simp]: "edges_below n E \<Longrightarrow> edges_below (Suc n) E"
  by (auto simp: edges_below_def)

lemma edges_below_filter [simp]:
  "edges_below n E \<Longrightarrow> edges_below n (Set.filter P E)"
  "edges_below n E \<Longrightarrow> edges_below n {e \<in> E. P e}"
  by (auto simp: edges_below_def)

lemma exec_preserves:
  assumes "\<And>f s. f \<in> set fs \<Longrightarrow> P s \<Longrightarrow> P (state_of (f s))" and "P s"
  shows "P (state_of (exec fs s))"
  using assms
proof (induction fs arbitrary: s)
  case Nil
  then show ?case by simp
next
  case (Cons f fs)
  have step: "P (state_of (f s))" using Cons.prems by simp
  show ?case
  proof (cases "f s")
    case (Returned s')
    with step have "P s'" by simp
    then have "P (state_of (exec fs s'))" using Cons.IH Cons.prems(1) by simp
    then show ?thesis using Returned by simp
  next
    case (Threw s')
    with step show ?thesis by simp
  qed
qed

lemma handles_ok_initial_state: "handles_ok initial_state"
  by (simp add: handles_ok_def initial_state_def)

lemma globals_ok_initial_state: "globals_ok initial_state"
  by (simp add: globals_ok_def initial_state_def)

lemma handles_ok_ensureAudioContext: "handles_ok s \<Longrightarrow> handles_ok (ensureAudioContext s)"
  by (auto simp: handles_ok_def prim_defs split: option.split)

lemma handles_ok_startMicrophone_begin: "handles_ok s \<Longrightarrow> handles_ok (startMicrophone_begin s)"
  using handles_ok_ensureAudioContext [of s]
  by (simp add: handles_ok_def call_def startMicrophone_begin_def Let_def)

lemma handles_ok_startMicrophone_catch: "handles_ok s \<Longrightarrow> handles_ok (startMicrophone_catch s)"
  by (simp add: handles_ok_def call_def startMicrophone_catch_def)

lemma handles_ok_assign_micStream:
  "handles_ok s \<Longrightarrow> st < next_id s \<Longrightarrow> handles_ok (state_of (assign_micStream st s))"
  by (simp add: handles_ok_def assign_micStream_def)

lemma handles_ok_createMediaStreamSource:
  "handles_ok s \<Longrightarrow> handles_ok (state_of (createMediaStreamSource st s))"
  by (auto simp: handles_ok_def call_def createMediaStreamSource_def split: option.split)

lemma handles_ok_createDelay: "handles_ok s \<Longrightarrow> handles_ok (state_of (createDelay s))"
  by (auto simp: handles_ok_def call_def createDelay_def split: option.split)

lemma handles_ok_createAnalyser: "handles_ok s \<Longrightarrow> handles_ok (state_of (createAnalyser s))"
  by (auto simp: handles_ok_def call_def createAnalyser_def split: option.split)

lemma handles_ok_connect_analyser: "handles_ok s \<Longrightarrow> handles_ok (state_of (connect_analyser s))"
  by (auto simp: handles_ok_def call_def connect_def connect_analyser_def split: option.split)

lemma handles_ok_route_on_start: "handles_ok s \<Longrightarrow> handles_ok (state_of (route_on_start s))"
  by (auto simp: handles_ok_def call_def connect_def route_on_start_def Let_def split: option.split)

lemma handles_ok_started_controls: "handles_ok s \<Longrightarrow> handles_ok (state_of (started_controls s))"
  by (simp add: handles_ok_def started_controls_def)

lemma handles_ok_drawWaveform: "handles_ok s \<Longrightarrow> handles_ok (state_of (drawWaveform s))"
  by (auto simp: handles_ok_def call_def drawWaveform_def Let_def split: option.split)

lemma handles_ok_goFullscreen: "handles_ok s \<Longrightarrow> handles_ok (goFullscreen s)"
  by (simp add: handles_ok_def call_def goFullscreen_def)

lemma handles_ok_stopMicrophone: "handles_ok s \<Longrightarrow> handles_ok (state_of (stopMicrophone s))"
  by (auto simp: handles_ok_def call_def stopMicrophone_def Let_def split: option.split)

lemma handles_ok_toggleDelay: "handles_ok s \<Longrightarrow> handles_ok (state_of (toggleDelay s))"
  by (auto simp: handles_ok_def prim_defs toggleDelay_def Let_def split: option.split)

lemma handles_ok_playDroppedAudio: "handles_ok s \<Longrightarrow> handles_ok (state_of (playDroppedAudio s))"
  by (auto simp: handles_ok_def prim_defs playDroppedAudio_def Let_def split: option.split)

lemma handles_ok_drop_handler: "handles_ok s \<Longrightarrow> handles_ok (drop_handler files s)"
  by (simp add: handles_ok_def prim_defs drop_handler_def Let_def split: list.split)

lemma handles_ok_reader_onload: "handles_ok s \<Longrightarrow> handles_ok (reader_onload s)"
  by (auto simp: handles_ok_def prim_defs reader_onload_def Let_def split: option.split)

lemma handles_ok_decode_callback: "handles_ok s \<Longrightarrow> handles_ok (decode_callback r s)"
  by (simp add: handles_ok_def prim_defs decode_callback_def Let_def split: decode_result.split)

lemma handles_ok_startMicrophone_try:
  assumes "handles_ok s" and "st < next_id s"
  shows "handles_ok (state_of (startMicrophone_try st s))"
proof -
  have "(\<lambda>s. handles_ok s \<and> st < next_id s) (state_of (startMicrophone_try st s))"
    unfolding startMicrophone_try_def
  proof (rule exec_preserves)
    show "handles_ok s \<and> st < next_id s" using assms by simp
  next
    fix f s'
    assume f: "f \<in> set [assign_micStream st, createMediaStreamSource st, createDelay,
           createAnalyser, connect_analyser, route_on_start, started_controls,
           drawWaveform, (\<lambda>s. Returned (goFullscreen s))]"
      and s': "handles_ok s' \<and> st < next_id s'"
    have keep: "st < next_id (state_of (f s'))"
      using f s' by (auto simp: stmt_defs prim_defs Let_def split: option.split)
    have "handles_ok (state_of (f s'))"
      using f s' handles_ok_assign_micStream handles_ok_createMediaStreamSource
        handles_ok_createDelay handles_ok_createAnalyser handles_ok_connect_analyser
        handles_ok_route_on_start handles_ok_started_controls handles_ok_drawWaveform
        handles_ok_goFullscreen
      by auto
    with keep show "handles_ok (state_of (f s')) \<and> st < next_id (state_of (f s'))" by simp
  qed
  then show ?thesis by simp
qed

lemma handles_ok_startMicrophone_resume:
  assumes "handles_ok s"
  shows "handles_ok (startMicrophone_resume r s)"
proof (cases r)
  case Denied
  have "handles_ok (s\<lparr>pending_gum := pending_gum s - 1\<rparr>)"
    using assms by (simp add: handles_ok_def)
  then show ?thesis
    using Denied by (simp add: startMicrophone_resume_def handles_ok_startMicrophone_catch)
next
  case Granted
  define s1 where "s1 = s\<lparr>pending_gum := pending_gum s - 1,
      live_streams := insert (next_id s) (live_streams s), next_id := Suc (next_id s)\<rparr>"
  have ok1: "handles_ok s1" and lt: "next_id s < next_id s1"
    using assms by (simp_all add: handles_ok_def s1_def)
  have ok2: "handles_ok (state_of (startMicrophone_try (next_id s) s1))"
    using ok1 lt by (rule handles_ok_startMicrophone_try)
  have "startMicrophone_resume Granted s =
      (case startMicrophone_try (next_id s) s1 of
         Returned s2 \<Rightarrow> s2 | Threw s2 \<Rightarrow> startMicrophone_catch s2)"
    by (simp add: startMicrophone_resume_def s1_def Let_def)
  then show ?thesis
    using ok2 Granted
    by (cases "startMicrophone_try (next_id s) s1")
       (simp_all add: handles_ok_startMicrophone_catch)
qed

lemma handles_ok_handle: "handles_ok s \<Longrightarrow> handles_ok (handle e s)"
proof (cases e)
  case (AnimationFrame h)
  assume ok: "handles_ok s"
  have "handles_ok (s\<lparr>frame_requests := frame_requests s - {h}\<rparr>)"
    using ok by (simp add: handles_ok_def)
  then show ?thesis using AnimationFrame ok by (simp add: handles_ok_drawWaveform)
next
  case (PlaybackEnded p)
  assume "handles_ok s"
  then show ?thesis using PlaybackEnded by (simp add: handles_ok_def)
next
  case DragOver
  assume "handles_ok s"
  then show ?thesis using DragOver by (simp add: handles_ok_def dragover_def)
next
  case DragLeave
  assume "handles_ok s"
  then show ?thesis using DragLeave by (simp add: handles_ok_def dragleave_def)
qed (simp_all add: handles_ok_startMicrophone_begin handles_ok_startMicrophone_resume
      handles_ok_stopMicrophone handles_ok_toggleDelay handles_ok_playDroppedAudio
      handles_ok_drop_handler handles_ok_reader_onload handles_ok_decode_callback)

subsection \<open>The globals that belong together\<close>

lemma startMicrophone_try_returns:
  assumes "audioContext s = Some c"
  shows "startMicrophone_try st s = Returned (s\<lparr>micStream := Some st,
      micSource := Some (next_id s), delayNode := Some (Suc (next_id s)),
      analyserNode := Some (Suc (Suc (next_id s))),
      animationId := Some (Suc (Suc (Suc (next_id s)))),
      stopMicBtn_disabled := False, toggleDelayBtn_disabled := False,
      statusMessage := ''Microphone started.'',
      connections :=
        (if isDelayEnabled s
         then insert (DelayN (Suc (next_id s)), Destination c)
                (insert (MediaStreamSource (next_id s), DelayN (Suc (next_id s)))
                   (insert (MediaStreamSource (next_id s), AnalyserN (Suc (Suc (next_id s))))
                      (connections s)))
         else insert (MediaStreamSource (next_id s), Destination c)
                (insert (MediaStreamSource (next_id s), AnalyserN (Suc (Suc (next_id s))))
                   (connections s))),
      frame_requests := insert (Suc (Suc (Suc (next_id s)))) (frame_requests s),
      calls := calls s @
        [CreateMediaStreamSource (next_id s) st, CreateDelay (Suc (next_id s)),
         CreateAnalyser (Suc (Suc (next_id s))),
         Connect (MediaStreamSource (next_id s)) (AnalyserN (Suc (Suc (next_id s))))] @
        (if isDelayEnabled s
         then [Connect (MediaStreamSource (next_id s)) (DelayN (Suc (next_id s))),
               Connect (DelayN (Suc (next_id s))) (Destination c)]
         else [Connect (MediaStreamSource (next_id s)) (Destination c)]) @
        RequestAnimationFrame (Suc (Suc (Suc (next_id s)))) #
        (if fullscreen_api s then [RequestFullscreen] else []),
      next_id := Suc (Suc (Suc (Suc (next_id s))))\<rparr>)"
  using assms by (simp add: startMicrophone_try_def stmt_defs prim_defs Let_def)

lemma globals_ok_ensureAudioContext: "globals_ok s \<Longrightarrow> globals_ok (ensureAudioContext s)"
  by (simp add: globals_ok_def prim_defs split: option.split)

lemma audioContext_ensureAudioContext: "audioContext (ensureAudioContext s) \<noteq> None"
  by (simp add: prim_defs split: option.split)

lemma globals_ok_startMicrophone_begin: "globals_ok s \<Longrightarrow> globals_ok (startMicrophone_begin s)"
  using globals_ok_ensureAudioContext [of s] audioContext_ensureAudioContext [of s]
  by (simp add: globals_ok_def call_def startMicrophone_begin_def Let_def)

lemma audioContext_startMicrophone_begin: "audioContext (startMicrophone_begin s) \<noteq> None"
  using audioContext_ensureAudioContext [of s]
  by (simp add: call_def startMicrophone_begin_def Let_def)

lemma globals_ok_startMicrophone_catch: "globals_ok s \<Longrightarrow> globals_ok (startMicrophone_catch s)"
  by (simp add: globals_ok_def call_def startMicrophone_catch_def)

lemma globals_ok_startMicrophone_resume:
  assumes "globals_ok s" and "audioContext s \<noteq> None"
  shows "globals_ok (startMicrophone_resume r s)"
proof (cases r)
  case Denied
  then show ?thesis
    using assms
    by (simp add: startMicrophone_resume_def startMicrophone_catch_def call_def globals_ok_def)
next
  case Granted
  from assms(2) obtain c where c: "audioContext s = Some c" by auto
  show ?thesis
    using assms(1) c Granted
    by (simp add: startMicrophone_resume_def Let_def startMicrophone_try_returns [where c = c]
        globals_ok_def)
qed

lemma globals_ok_stopMicrophone: "globals_ok s \<Longrightarrow> globals_ok (state_of (stopMicrophone s))"
  by (simp add: globals_ok_def call_def stopMicrophone_def Let_def split: option.split)

lemma globals_ok_toggleDelay: "globals_ok s \<Longrightarrow> globals_ok (state_of (toggleDelay s))"
  by (auto simp: globals_ok_def prim_defs toggleDelay_def Let_def split: option.split)

lemma globals_ok_playDroppedAudio: "globals_ok s \<Longrightarrow> globals_ok (state_of (playDroppedAudio s))"
  by (auto simp: globals_ok_def prim_defs playDroppedAudio_def Let_def split: option.split)

lemma globals_ok_drop_handler: "globals_ok s \<Longrightarrow> globals_ok (drop_handler files s)"
  by (simp add: globals_ok_def prim_defs drop_handler_def Let_def split: list.split)

lemma globals_ok_reader_onload: "globals_ok s \<Longrightarrow> globals_ok (reader_onload s)"
  by (simp add: globals_ok_def prim_defs reader_onload_def Let_def split: option.split)

lemma globals_ok_decode_callback:
  "globals_ok s \<Longrightarrow> 0 < pending_decodes s \<Longrightarrow> globals_ok (decode_callback r s)"
  by (simp add: globals_ok_def prim_defs decode_callback_def Let_def split: decode_result.split)

lemma globals_ok_drawWaveform: "globals_ok s \<Longrightarrow> globals_ok (state_of (drawWaveform s))"
  by (auto simp: globals_ok_def call_def drawWaveform_def Let_def split: option.split)

lemma globals_ok_handle: "globals_ok s \<Longrightarrow> globals_ok (handle e s)"
proof (cases e)
  case (GumSettled r)
  assume ok: "globals_ok s"
  show ?thesis
  proof (cases "pending_gum s = 0")
    case True
    then show ?thesis using GumSettled ok by simp
  next
    case False
    then have "audioContext s \<noteq> None" using ok by (simp add: globals_ok_def)
    then show ?thesis
      using GumSettled ok False by (simp add: globals_ok_startMicrophone_resume)
  qed
next
  case (AnimationFrame h)
  assume ok: "globals_ok s"
  have "globals_ok (s\<lparr>frame_requests := frame_requests s - {h}\<rparr>)"
    using ok by (simp add: globals_ok_def)
  then show ?thesis using AnimationFrame ok by (simp add: globals_ok_drawWaveform)
next
  case (PlaybackEnded p)
  assume "globals_ok s"
  then show ?thesis using PlaybackEnded by (simp add: globals_ok_def)
next
  case DragOver
  assume "globals_ok s"
  then show ?thesis using DragOver by (simp add: globals_ok_def dragover_def)
next
  case DragLeave
  assume "globals_ok s"
  then show ?thesis using DragLeave by (simp add: globals_ok_def dragleave_def)
qed (simp_all add: globals_ok_startMicrophone_begin
      globals_ok_stopMicrophone globals_ok_toggleDelay globals_ok_playDroppedAudio
      globals_ok_drop_handler globals_ok_reader_onload globals_ok_decode_callback)

lemma inv_initial_state: "inv initial_state"
  by (simp add: inv_def handles_ok_initial_state globals_ok_initial_state)

lemma inv_handle: "inv s \<Longrightarrow> inv (handle e s)"
  by (simp add: inv_def handles_ok_handle globals_ok_handle)

lemma inv_run: "inv s \<Longrightarrow> inv (run es s)"
  by (induction es arbitrary: s) (simp_all add: inv_handle)

section \<open>The claims\<close>

subsection \<open>Toggling the delay while the microphone runs\<close>

lemma mic_active_micSource:
  assumes "inv s" and "mic_active s"
  obtains src d a c where "micSource s = Some src" "delayNode s = Some d"
    "analyserNode s = Some a" "audioContext s = Some c"
proof -
  from assms(2) have "micStream s \<noteq> None" by (auto simp: mic_active_def split: option.splits)
  with assms(1) have "micSource s \<noteq> None" "delayNode s \<noteq> None" "analyserNode s \<noteq> None"
    "audioContext s \<noteq> None"
    by (simp_all add: inv_def globals_ok_def)
  then show thesis using that by auto
qed

lemma toggleDelay_returns:
  assumes "micSource s = Some src" "delayNode s = Some d" "audioContext s = Some c"
  shows "toggleDelay s = Returned (s\<lparr>isDelayEnabled := \<not> isDelayEnabled s,
      statusMessage := (if isDelayEnabled s then ''Delay disabled.'' else ''Delay enabled.''),
      connections :=
        (if isDelayEnabled s
         then insert (MediaStreamSource src, Destination c)
                (Set.filter (\<lambda>e. fst e \<noteq> MediaStreamSource src) (connections s))
         else insert (DelayN d, Destination c)
                (insert (MediaStreamSource src, DelayN d)
                   (Set.filter (\<lambda>e. fst e \<noteq> MediaStreamSource src) (connections s)))),
      calls := calls s @ Disconnect (MediaStreamSource src) #
        (if isDelayEnabled s
         then [Connect (MediaStreamSource src) (Destination c)]
         else [Connect (MediaStreamSource src) (DelayN d), Connect (DelayN d) (Destination c)])\<rparr>)"
  using assms by (simp add: toggleDelay_def prim_defs Let_def)








subsection \<open>Starting the microphone\<close>

lemma startMicrophone_begin_frame:
  "startMicBtn_disabled (startMicrophone_begin s) = startMicBtn_disabled s"
  "stopMicBtn_disabled (startMicrophone_begin s) = stopMicBtn_disabled s"
  "toggleDelayBtn_disabled (startMicrophone_begin s) = toggleDelayBtn_disabled s"
  "playAudioBtn_disabled (startMicrophone_begin s) = playAudioBtn_disabled s"
  "statusMessage (startMicrophone_begin s) = statusMessage s"
  "isDelayEnabled (startMicrophone_begin s) = isDelayEnabled s"
  "micStream (startMicrophone_begin s) = micStream s"
  "micSource (startMicrophone_begin s) = micSource s"
  "delayNode (startMicrophone_begin s) = delayNode s"
  "analyserNode (startMicrophone_begin s) = analyserNode s"
  "animationId (startMicrophone_begin s) = animationId s"
  "droppedAudioBuffer (startMicrophone_begin s) = droppedAudioBuffer s"
  "droppedAudioSource (startMicrophone_begin s) = droppedAudioSource s"
  "connections (startMicrophone_begin s) = connections s"
  "live_streams (startMicrophone_begin s) = live_streams s"
  "frame_requests (startMicrophone_begin s) = frame_requests s"
  "playing (startMicrophone_begin s) = playing s"
  by (simp_all add: startMicrophone_begin_def prim_defs Let_def split: option.split)

lemma startMicrophone_begin_calls:
  "calls (startMicrophone_begin s) =
     calls s @ (if audioContext s = None then [NewAudioContext (next_id s)] else []) @
     [GetUserMedia]"
  by (simp add: startMicrophone_begin_def prim_defs Let_def split: option.split)

lemma startMicrophone_Denied:
  "startMicrophone Denied s =
     (startMicrophone_begin s)
       \<lparr>pending_gum := pending_gum (startMicrophone_begin s) - 1,
        statusMessage := ''Error accessing microphone.'',
        calls := calls (startMicrophone_begin s) @ [ConsoleError ''Error accessing microphone'']\<rparr>"
  by (simp add: startMicrophone_def startMicrophone_resume_def startMicrophone_catch_def
      call_def Let_def)

lemma startMicrophone_Granted_controls:
  "\<not> stopMicBtn_disabled (startMicrophone Granted s)"
  "\<not> toggleDelayBtn_disabled (startMicrophone Granted s)"
  "startMicBtn_disabled (startMicrophone Granted s) = startMicBtn_disabled s"
  "playAudioBtn_disabled (startMicrophone Granted s) = playAudioBtn_disabled s"
  "statusMessage (startMicrophone Granted s) = ''Microphone started.''"
  "isDelayEnabled (startMicrophone Granted s) = isDelayEnabled s"
  "mic_active (startMicrophone Granted s)"
proof -
  obtain c where c: "audioContext (startMicrophone_begin s) = Some c"
    using audioContext_startMicrophone_begin [of s] by auto
  note unf = startMicrophone_def startMicrophone_resume_def Let_def
    startMicrophone_try_returns [where c = c] c startMicrophone_begin_frame
  show "\<not> stopMicBtn_disabled (startMicrophone Granted s)" by (simp add: unf)
  show "\<not> toggleDelayBtn_disabled (startMicrophone Granted s)" by (simp add: unf)
  show "startMicBtn_disabled (startMicrophone Granted s) = startMicBtn_disabled s"
    by (simp add: unf)
  show "playAudioBtn_disabled (startMicrophone Granted s) = playAudioBtn_disabled s"
    by (simp add: unf)
  show "statusMessage (startMicrophone Granted s) = ''Microphone started.''"
    by (simp add: unf)
  show "isDelayEnabled (startMicrophone Granted s) = isDelayEnabled s" by (simp add: unf)
  show "mic_active (startMicrophone Granted s)" by (simp add: unf mic_active_def)
qed

text \<open>
  Claim C3, as amended. After a start that was granted access, the stop and toggle
  buttons are enabled and the status reads that the microphone started; the start
  button and the play button are as they were before: the script never writes the
  \<^verbatim>\<open>disabled\<close> flag of the start button.
\<close>

theorem C3_start_enables_stop_and_toggle:
  "mic_active (startMicrophone Granted s) \<and>
   \<not> stopMicBtn_disabled (startMicrophone Granted s) \<and>
   \<not> toggleDelayBtn_disabled (startMicrophone Granted s) \<and>
   startMicBtn_disabled (startMicrophone Granted s) = startMicBtn_disabled s \<and>
   playAudioBtn_disabled (startMicrophone Granted s) = playAudioBtn_disabled s \<and>
   statusMessage (startMicrophone Granted s) = ''Microphone started.''"
  by (simp add: startMicrophone_Granted_controls)

theorem C3_start_enables_stop_and_toggle_witness:
  "\<not> stopMicBtn_disabled (startMicrophone Granted initial_state) \<and>
   \<not> toggleDelayBtn_disabled (startMicrophone Granted initial_state) \<and>
   \<not> startMicBtn_disabled (startMicrophone Granted initial_state)"
  using C3_start_enables_stop_and_toggle [of initial_state]
  by (simp add: initial_state_def)

text \<open>
  The claim as written fails on the freshly loaded page: the start succeeds and the
  start button is still enabled.
\<close>

theorem C3_start_button_not_disabled:
  "mic_active (startMicrophone Granted initial_state) \<and>
   \<not> (\<not> stopMicBtn_disabled (startMicrophone Granted initial_state) \<and>
      \<not> toggleDelayBtn_disabled (startMicrophone Granted initial_state) \<and>
      startMicBtn_disabled (startMicrophone Granted initial_state))"
  by code_simp

text \<open>
  Claim C4. When access is refused, the status reads the access error and every button
  is as it was before the click; the globals of the microphone, the graph and the live
  streams are untouched as well. On the freshly loaded page the stop and toggle buttons
  are therefore still disabled.
\<close>

theorem C4_failed_start_keeps_controls:
  "statusMessage (startMicrophone Denied s) = ''Error accessing microphone.'' \<and>
   startMicBtn_disabled (startMicrophone Denied s) = startMicBtn_disabled s \<and>
   stopMicBtn_disabled (startMicrophone Denied s) = stopMicBtn_disabled s \<and>
   toggleDelayBtn_disabled (startMicrophone Denied s) = toggleDelayBtn_disabled s \<and>
   playAudioBtn_disabled (startMicrophone Denied s) = playAudioBtn_disabled s \<and>
   micStream (startMicrophone Denied s) = micStream s \<and>
   micSource (startMicrophone Denied s) = micSource s \<and>
   connections (startMicrophone Denied s) = connections s \<and>
   live_streams (startMicrophone Denied s) = live_streams s \<and>
   frame_requests (startMicrophone Denied s) = frame_requests s \<and>
   stopMicBtn_disabled (startMicrophone Denied initial_state) \<and>
   toggleDelayBtn_disabled (startMicrophone Denied initial_state) \<and>
   \<not> mic_active (startMicrophone Denied initial_state)"
  by (simp add: startMicrophone_Denied startMicrophone_begin_frame mic_active_def)
     (simp add: initial_state_def)

theorem C4_failed_start_keeps_controls_witness:
  "statusMessage (startMicrophone Denied (startMicrophone Granted initial_state)) =
     ''Error accessing microphone.'' \<and>
   \<not> stopMicBtn_disabled (startMicrophone Denied (startMicrophone Granted initial_state)) \<and>
   stopMicBtn_disabled (startMicrophone Denied initial_state)"
  using C4_failed_start_keeps_controls [of "startMicrophone Granted initial_state"]
  by (simp add: startMicrophone_Granted_controls)

subsection \<open>Toggling and stopping\<close>

text \<open>
  Claim C2 fails on the script. \<^verbatim>\<open>startMicrophone\<close> connects the capture source to the
  analyser (line 284) and then routes it; \<^verbatim>\<open>toggleDelay\<close> calls
  \<^verbatim>\<open>micSource.disconnect()\<close> without argument (line 320), which removes that connection
  too, and makes only the routing connection again. After one start and one toggle the
  microphone is active and the analyser hears nothing.
\<close>

theorem C2_toggle_disconnects_analyser:
  "mic_active (run [StartClick, GumSettled Granted] initial_state) \<and>
   analyser_connected (run [StartClick, GumSettled Granted] initial_state) \<and>
   mic_active (run [StartClick, GumSettled Granted, ToggleClick] initial_state) \<and>
   \<not> analyser_connected (run [StartClick, GumSettled Granted, ToggleClick] initial_state)"
  by code_simp

text \<open>The same in general: after a toggle that finds a capture source, the analyser
  is not connected to it.\<close>

lemma toggleDelay_analyser_disconnected:
  assumes "inv s" and "mic_active s"
  shows "\<not> analyser_connected (state_of (toggleDelay s))"
proof -
  from assms obtain src d a c where g: "micSource s = Some src" "delayNode s = Some d"
    "analyserNode s = Some a" "audioContext s = Some c"
    by (rule mic_active_micSource)
  show ?thesis
    using g by (simp add: toggleDelay_returns [OF g(1,2,4)] analyser_connected_def)
qed

text \<open>
  Claim C7, as amended. When there is no capture source (the microphone was never
  started), \<^verbatim>\<open>toggleDelay\<close> returns and the one change is the flip of
  \<^verbatim>\<open>isDelayEnabled\<close>: the graph, the list of browser calls and the status text are as
  they were.
\<close>

theorem C7_toggle_without_source_only_flips:
  assumes "micSource s = None"
  shows "toggleDelay s = Returned (s\<lparr>isDelayEnabled := \<not> isDelayEnabled s\<rparr>)"
  using assms by (simp add: toggleDelay_def Let_def)

theorem C7_toggle_without_source_only_flips_witness:
  "micSource initial_state = None \<and>
   toggleDelay initial_state = Returned (initial_state\<lparr>isDelayEnabled := True\<rparr>)"
proof -
  have n: "micSource initial_state = None" by (simp add: initial_state_def)
  from C7_toggle_without_source_only_flips [OF n] n show ?thesis
    by (simp add: initial_state_def)
qed

text \<open>
  The claim as written fails twice. On the freshly loaded page the microphone is not
  active and a toggle turns the mode on without touching the status text, so the new
  mode is not reported. After a start and a stop the microphone is not active either,
  but \<^verbatim>\<open>micSource\<close> is still set, and a toggle rewires the graph.
\<close>

theorem C7_toggle_inactive_counterexample:
  "\<not> mic_active initial_state \<and>
   isDelayEnabled (state_of (toggleDelay initial_state)) \<and>
   statusMessage (state_of (toggleDelay initial_state)) = statusMessage initial_state \<and>
   statusMessage (state_of (toggleDelay initial_state)) \<noteq> ''Delay enabled.'' \<and>
   \<not> mic_active (run [StartClick, GumSettled Granted, StopClick] initial_state) \<and>
   connections (state_of (toggleDelay (run [StartClick, GumSettled Granted, StopClick] initial_state)))
     \<noteq> connections (run [StartClick, GumSettled Granted, StopClick] initial_state)"
  by code_simp

text \<open>
  Claim C8. \<^verbatim>\<open>stopMicrophone\<close> returns in every state. When there is no stream and no
  animation handle, as before the first start, it stops no track and cancels no frame:
  the whole effect is the two disabled buttons and the status text.
\<close>

theorem C8_stop_before_start_is_safe:
  "(\<exists>s'. stopMicrophone s = Returned s') \<and>
   (micStream s = None \<and> animationId s = None \<longrightarrow>
      stopMicrophone s =
        Returned (s\<lparr>stopMicBtn_disabled := True, toggleDelayBtn_disabled := True,
                    statusMessage := ''Microphone stopped.''\<rparr>))"
  by (simp add: stopMicrophone_def Let_def)

theorem C8_stop_before_start_is_safe_witness:
  "micStream initial_state = None \<and> animationId initial_state = None \<and>
   stopMicrophone initial_state =
     Returned (initial_state\<lparr>statusMessage := ''Microphone stopped.''\<rparr>) \<and>
   calls (state_of (stopMicrophone initial_state)) = [] \<and>
   live_streams (state_of (stopMicrophone initial_state)) = live_streams initial_state \<and>
   frame_requests (state_of (stopMicrophone initial_state)) = frame_requests initial_state"
  using C8_stop_before_start_is_safe [of initial_state]
  by (simp add: initial_state_def)

subsection \<open>Dropped audio\<close>

lemma playDroppedAudio_returns:
  assumes "droppedAudioBuffer s = Some b" and "audioContext s = Some c"
  shows "playDroppedAudio s = Returned (s\<lparr>droppedAudioSource := Some (next_id s),
      statusMessage := ''Playing dropped audio.'',
      connections := insert (BufferSource (next_id s), Destination c) (connections s),
      playing := insert (next_id s) (playing s - set_option (droppedAudioSource s)),
      source_buffer := (next_id s, b) # source_buffer s,
      calls := calls s @
        (case droppedAudioSource s of None \<Rightarrow> [] | Some p \<Rightarrow> [SourceStop p]) @
        [CreateBufferSource (next_id s),
         Connect (BufferSource (next_id s)) (Destination c),
         SourceStart (next_id s)],
      next_id := Suc (next_id s)\<rparr>)"
  using assms by (simp add: playDroppedAudio_def prim_defs Let_def split: option.split)

lemma playing_at_most_current:
  assumes "inv s"
  shows "playing s - set_option (droppedAudioSource s) = {}"
  using assms by (auto simp: inv_def globals_ok_def)

lemma no_edge_from_next_id:
  assumes "inv s" and "node_id a = next_id s"
  shows "(a, b) \<notin> connections s"
  using assms by (auto simp: inv_def handles_ok_def edges_below_def)

text \<open>
  Claim C5. Without a decoded buffer \<^verbatim>\<open>playDroppedAudio\<close> returns the state as it is.
  With one, in a state of the invariant, it returns; the browser calls it adds are, in
  this order, the stop of the previous buffer source if there is one, the creation of a
  new source, its connection to the destination and its start; the new source carries
  the decoded buffer, feeds the destination and nothing else, and is the only source
  playing. In every state the page can reach, at most one source is playing.
\<close>

theorem C5_play_replaces_playback:
  "(droppedAudioBuffer s = None \<longrightarrow> playDroppedAudio s = Returned s) \<and>
   (inv s \<and> droppedAudioBuffer s = Some b \<longrightarrow>
      (\<exists>s' c. playDroppedAudio s = Returned s' \<and> audioContext s = Some c \<and>
         droppedAudioSource s' = Some (next_id s) \<and>
         droppedAudioSource s' \<noteq> droppedAudioSource s \<and>
         map_of (source_buffer s') (next_id s) = Some b \<and>
         outputs_of (BufferSource (next_id s)) s' = {Destination c} \<and>
         playing s' = {next_id s} \<and>
         calls s' = calls s @
           (case droppedAudioSource s of None \<Rightarrow> [] | Some p \<Rightarrow> [SourceStop p]) @
           [CreateBufferSource (next_id s),
            Connect (BufferSource (next_id s)) (Destination c),
            SourceStart (next_id s)])) \<and>
   (\<forall>es p q. p \<in> playing (run es initial_state) \<and> q \<in> playing (run es initial_state)
      \<longrightarrow> p = q)"
proof (intro conjI impI allI)
  assume "droppedAudioBuffer s = None"
  then show "playDroppedAudio s = Returned s" by (simp add: playDroppedAudio_def)
next
  assume a: "inv s \<and> droppedAudioBuffer s = Some b"
  then have i: "inv s" and b: "droppedAudioBuffer s = Some b" by simp_all
  from i b obtain c where c: "audioContext s = Some c"
    by (auto simp: inv_def globals_ok_def)
  define s' where "s' = state_of (playDroppedAudio s)"
  note r = playDroppedAudio_returns [OF b c]
  have ret: "playDroppedAudio s = Returned s'" by (simp add: s'_def r)
  have src: "droppedAudioSource s' = Some (next_id s)" by (simp add: s'_def r)
  have "below (next_id s) (droppedAudioSource s)"
    using i by (simp add: inv_def handles_ok_def)
  then have new: "droppedAudioSource s' \<noteq> droppedAudioSource s"
    using src by (auto simp: below_def)
  have buf: "map_of (source_buffer s') (next_id s) = Some b" by (simp add: s'_def r)
  have con: "connections s' = insert (BufferSource (next_id s), Destination c) (connections s)"
    by (simp add: s'_def r)
  have "\<And>x. (BufferSource (next_id s), x) \<notin> connections s"
    using i by (simp add: no_edge_from_next_id)
  then have out: "outputs_of (BufferSource (next_id s)) s' = {Destination c}"
    by (auto simp: outputs_of_def con image_iff)
  have pl: "playing s' = {next_id s}"
    by (simp add: s'_def r playing_at_most_current [OF i])
  have cl: "calls s' = calls s @
           (case droppedAudioSource s of None \<Rightarrow> [] | Some p \<Rightarrow> [SourceStop p]) @
           [CreateBufferSource (next_id s),
            Connect (BufferSource (next_id s)) (Destination c),
            SourceStart (next_id s)]"
    by (simp add: s'_def r)
  from ret c src new buf out pl cl
  show "\<exists>s' c. playDroppedAudio s = Returned s' \<and> audioContext s = Some c \<and>
         droppedAudioSource s' = Some (next_id s) \<and>
         droppedAudioSource s' \<noteq> droppedAudioSource s \<and>
         map_of (source_buffer s') (next_id s) = Some b \<and>
         outputs_of (BufferSource (next_id s)) s' = {Destination c} \<and>
         playing s' = {next_id s} \<and>
         calls s' = calls s @
           (case droppedAudioSource s of None \<Rightarrow> [] | Some p \<Rightarrow> [SourceStop p]) @
           [CreateBufferSource (next_id s),
            Connect (BufferSource (next_id s)) (Destination c),
            SourceStart (next_id s)]"
    by blast
next
  fix es p q
  assume pq: "p \<in> playing (run es initial_state) \<and> q \<in> playing (run es initial_state)"
  have "inv (run es initial_state)" by (rule inv_run [OF inv_initial_state])
  then have "\<forall>x \<in> playing (run es initial_state).
      droppedAudioSource (run es initial_state) = Some x"
    by (simp add: inv_def globals_ok_def)
  with pq have "droppedAudioSource (run es initial_state) = Some p"
    and "droppedAudioSource (run es initial_state) = Some q"
    by blast+
  then show "p = q" by simp
qed

theorem C5_play_replaces_playback_witness:
  "inv (run [Drop [\<lparr>file_type = ''audio/wav'', file_bytes = []\<rparr>], ReaderLoaded,
             DecodeSettled (Decoded [7]), PlayClick] initial_state) \<and>
   droppedAudioBuffer (run [Drop [\<lparr>file_type = ''audio/wav'', file_bytes = []\<rparr>], ReaderLoaded,
             DecodeSettled (Decoded [7]), PlayClick] initial_state) = Some [7] \<and>
   playing (run [Drop [\<lparr>file_type = ''audio/wav'', file_bytes = []\<rparr>], ReaderLoaded,
             DecodeSettled (Decoded [7]), PlayClick] initial_state) = {2} \<and>
   playing (run [Drop [\<lparr>file_type = ''audio/wav'', file_bytes = []\<rparr>], ReaderLoaded,
             DecodeSettled (Decoded [7]), PlayClick, PlayClick] initial_state) = {3} \<and>
   droppedAudioBuffer initial_state = None \<and>
   playDroppedAudio initial_state = Returned initial_state"
proof -
  define s where "s = run [Drop [\<lparr>file_type = ''audio/wav'', file_bytes = []\<rparr>], ReaderLoaded,
             DecodeSettled (Decoded [7]), PlayClick] initial_state"
  have i: "inv s" unfolding s_def by (rule inv_run [OF inv_initial_state])
  have b: "droppedAudioBuffer s = Some [7]" unfolding s_def by code_simp
  have n: "next_id s = 3" unfolding s_def by code_simp
  have p: "playing s = {2}" unfolding s_def by code_simp
  have z: "droppedAudioBuffer initial_state = None" by (simp add: initial_state_def)
  have e: "run [Drop [\<lparr>file_type = ''audio/wav'', file_bytes = []\<rparr>], ReaderLoaded,
             DecodeSettled (Decoded [7]), PlayClick, PlayClick] initial_state =
           state_of (playDroppedAudio s)"
    unfolding s_def by code_simp
  from C5_play_replaces_playback [of s "[7]"] i b n
  have "playing (state_of (playDroppedAudio s)) = {3}" by auto
  moreover from C5_play_replaces_playback [of initial_state] z
  have "playDroppedAudio initial_state = Returned initial_state" by blast
  ultimately show ?thesis using i b p z e unfolding s_def by simp
qed

lemma decode_callback_DecodeError:
  "decode_callback DecodeError s =
     s\<lparr>pending_decodes := pending_decodes s - 1,
       statusMessage := ''Error decoding audio file.'',
       calls := calls s @ [ConsoleError ''Error decoding audio file'']\<rparr>"
  by (simp add: decode_callback_def call_def Let_def)

lemma decode_callback_Decoded:
  "decode_callback (Decoded b) s =
     s\<lparr>pending_decodes := pending_decodes s - 1, droppedAudioBuffer := Some b,
       statusMessage := ''Audio file loaded.'', playAudioBtn_disabled := False\<rparr>"
  by (simp add: decode_callback_def Let_def)

lemma reader_onload_frame:
  "droppedAudioBuffer (reader_onload s) = droppedAudioBuffer s"
  "playAudioBtn_disabled (reader_onload s) = playAudioBtn_disabled s"
  "pending_decodes (reader_onload s) = Suc (pending_decodes s)"
  by (simp_all add: reader_onload_def prim_defs Let_def split: option.split)

lemma drop_handler_audio:
  assumes "prefix ''audio/'' (file_type f)"
  shows "drop_handler (f # fs) s =
     s\<lparr>dropZone_dragover := False, pending_reads := Suc (pending_reads s),
       calls := calls s @ [ReadAsArrayBuffer]\<rparr>"
  using assms by (simp add: drop_handler_def call_def Let_def)

lemma run_drop_audio:
  assumes "prefix ''audio/'' (file_type f)"
  shows "run [Drop (f # fs), ReaderLoaded, DecodeSettled r] s =
         decode_callback r (reader_onload (drop_handler (f # fs) s))"
  using assms by (simp add: drop_handler_audio reader_onload_frame)

text \<open>
  Claim C6. A first file whose type does not start with \<^verbatim>\<open>audio/\<close>: the drop sets the
  status text, clears the highlight of the drop zone and changes nothing else, so the
  play button and the decoded buffer are as they were and nothing is read or decoded.
  A first file of an audio type whose decoding fails: the status reads the decoding
  error, and the buffer and the play button are as they were. When the decoding
  succeeds the buffer is the decoded one and the play button is enabled. The two
  callbacks do the same whenever they run.
\<close>

theorem C6_drop_outcomes:
  "(\<not> prefix ''audio/'' (file_type f) \<longrightarrow>
      drop_handler (f # fs) s =
        s\<lparr>dropZone_dragover := False, statusMessage := ''Please drop a valid audio file.''\<rparr>) \<and>
   (prefix ''audio/'' (file_type f) \<longrightarrow>
      statusMessage (run [Drop (f # fs), ReaderLoaded, DecodeSettled DecodeError] s) =
        ''Error decoding audio file.'' \<and>
      droppedAudioBuffer (run [Drop (f # fs), ReaderLoaded, DecodeSettled DecodeError] s) =
        droppedAudioBuffer s \<and>
      playAudioBtn_disabled (run [Drop (f # fs), ReaderLoaded, DecodeSettled DecodeError] s) =
        playAudioBtn_disabled s \<and>
      statusMessage (run [Drop (f # fs), ReaderLoaded, DecodeSettled (Decoded b)] s) =
        ''Audio file loaded.'' \<and>
      droppedAudioBuffer (run [Drop (f # fs), ReaderLoaded, DecodeSettled (Decoded b)] s) =
        Some b \<and>
      \<not> playAudioBtn_disabled (run [Drop (f # fs), ReaderLoaded, DecodeSettled (Decoded b)] s)) \<and>
   droppedAudioBuffer (decode_callback DecodeError s) = droppedAudioBuffer s \<and>
   playAudioBtn_disabled (decode_callback DecodeError s) = playAudioBtn_disabled s \<and>
   statusMessage (decode_callback DecodeError s) = ''Error decoding audio file.'' \<and>
   \<not> playAudioBtn_disabled (decode_callback (Decoded b) s)"
proof (intro conjI impI)
  assume "\<not> prefix ''audio/'' (file_type f)"
  then show "drop_handler (f # fs) s =
      s\<lparr>dropZone_dragover := False, statusMessage := ''Please drop a valid audio file.''\<rparr>"
    by (simp add: drop_handler_def Let_def)
next
  assume a: "prefix ''audio/'' (file_type f)"
  note e = run_drop_audio [OF a] decode_callback_DecodeError reader_onload_frame
    drop_handler_audio [OF a]
  show "statusMessage (run [Drop (f # fs), ReaderLoaded, DecodeSettled DecodeError] s) =
        ''Error decoding audio file.''"
    by (simp add: e)
  show "droppedAudioBuffer (run [Drop (f # fs), ReaderLoaded, DecodeSettled DecodeError] s) =
        droppedAudioBuffer s"
    by (simp add: e)
  show "playAudioBtn_disabled (run [Drop (f # fs), ReaderLoaded, DecodeSettled DecodeError] s) =
        playAudioBtn_disabled s"
    by (simp add: e)
next
  assume a: "prefix ''audio/'' (file_type f)"
  note e = run_drop_audio [OF a] decode_callback_Decoded reader_onload_frame
    drop_handler_audio [OF a]
  show "statusMessage (run [Drop (f # fs), ReaderLoaded, DecodeSettled (Decoded b)] s) =
        ''Audio file loaded.''"
    by (simp add: e)
  show "droppedAudioBuffer (run [Drop (f # fs), ReaderLoaded, DecodeSettled (Decoded b)] s) =
        Some b"
    by (simp add: e)
  show "\<not> playAudioBtn_disabled (run [Drop (f # fs), ReaderLoaded, DecodeSettled (Decoded b)] s)"
    by (simp add: e)
qed (simp_all add: decode_callback_DecodeError decode_callback_Decoded)

theorem C6_drop_outcomes_witness:
  "\<not> prefix ''audio/'' (file_type \<lparr>file_type = ''text/plain'', file_bytes = [1]\<rparr>) \<and>
   drop_handler [\<lparr>file_type = ''text/plain'', file_bytes = [1]\<rparr>] initial_state =
     initial_state\<lparr>statusMessage := ''Please drop a valid audio file.''\<rparr> \<and>
   prefix ''audio/'' (file_type \<lparr>file_type = ''audio/wav'', file_bytes = [1]\<rparr>) \<and>
   playAudioBtn_disabled
     (run [Drop [\<lparr>file_type = ''audio/wav'', file_bytes = [1]\<rparr>], ReaderLoaded,
           DecodeSettled DecodeError] initial_state) \<and>
   \<not> playAudioBtn_disabled
     (run [Drop [\<lparr>file_type = ''audio/wav'', file_bytes = [1]\<rparr>], ReaderLoaded,
           DecodeSettled (Decoded [7])] initial_state)"
proof -
  have n: "\<not> prefix ''audio/'' (file_type \<lparr>file_type = ''text/plain'', file_bytes = [1]\<rparr>)"
    by simp
  have a: "prefix ''audio/'' (file_type \<lparr>file_type = ''audio/wav'', file_bytes = [1]\<rparr>)"
    by simp
  have d: "playAudioBtn_disabled initial_state" "\<not> dropZone_dragover initial_state"
    by (simp_all add: initial_state_def)
  from C6_drop_outcomes [of "\<lparr>file_type = ''text/plain'', file_bytes = [1]\<rparr>" "[]" initial_state] n
  have 1: "drop_handler [\<lparr>file_type = ''text/plain'', file_bytes = [1]\<rparr>] initial_state =
     initial_state\<lparr>statusMessage := ''Please drop a valid audio file.''\<rparr>"
    by (simp add: initial_state_def)
  from C6_drop_outcomes [of "\<lparr>file_type = ''audio/wav'', file_bytes = [1]\<rparr>" "[]" initial_state "[7]"] a d
  have 2: "playAudioBtn_disabled
     (run [Drop [\<lparr>file_type = ''audio/wav'', file_bytes = [1]\<rparr>], ReaderLoaded,
           DecodeSettled DecodeError] initial_state)"
    and 3: "\<not> playAudioBtn_disabled
     (run [Drop [\<lparr>file_type = ''audio/wav'', file_bytes = [1]\<rparr>], ReaderLoaded,
           DecodeSettled (Decoded [7])] initial_state)"
    by blast+
  from n a 1 2 3 show ?thesis by blast
qed

subsection \<open>The mode across stop and start\<close>

lemma run_append: "run (xs @ ys) s = run ys (run xs s)"
  by (induction xs arbitrary: s) simp_all

lemma isDelayEnabled_toggleDelay:
  "isDelayEnabled (state_of (toggleDelay s)) = (\<not> isDelayEnabled s)"
  by (simp add: toggleDelay_def prim_defs Let_def split: option.split)

lemma toggleDelay_buttons:
  "toggleDelayBtn_disabled (state_of (toggleDelay s)) = toggleDelayBtn_disabled s"
  "stopMicBtn_disabled (state_of (toggleDelay s)) = stopMicBtn_disabled s"
  by (simp_all add: toggleDelay_def prim_defs Let_def split: option.split)

lemma run_toggles:
  assumes "\<not> toggleDelayBtn_disabled s"
  shows "isDelayEnabled (run (replicate n ToggleClick) s) = (isDelayEnabled s \<noteq> odd n)"
    and "\<not> toggleDelayBtn_disabled (run (replicate n ToggleClick) s)"
    and "stopMicBtn_disabled (run (replicate n ToggleClick) s) = stopMicBtn_disabled s"
  using assms
proof (induction n arbitrary: s)
  case 0
  {
    case 1 then show ?case by simp
  next
    case 2 then show ?case by simp
  next
    case 3 then show ?case by simp
  }
next
  case (Suc n)
  {
    case 1
    then have "\<not> toggleDelayBtn_disabled (state_of (toggleDelay s))"
      by (simp add: toggleDelay_buttons)
    from Suc.IH(1) [OF this] 1 show ?case
      by (auto simp: isDelayEnabled_toggleDelay)
  next
    case 2
    then have "\<not> toggleDelayBtn_disabled (state_of (toggleDelay s))"
      by (simp add: toggleDelay_buttons)
    from Suc.IH(2) [OF this] 2 show ?case by simp
  next
    case 3
    then have "\<not> toggleDelayBtn_disabled (state_of (toggleDelay s))"
      by (simp add: toggleDelay_buttons)
    from Suc.IH(3) [OF this] 3 show ?case by (simp add: toggleDelay_buttons)
  }
qed

lemma isDelayEnabled_stopMicrophone:
  "isDelayEnabled (state_of (stopMicrophone s)) = isDelayEnabled s"
  by (simp add: stopMicrophone_def call_def Let_def split: option.split)

lemma run_start_granted:
  "\<not> startMicBtn_disabled s \<Longrightarrow> run [StartClick, GumSettled r] s = startMicrophone r s"
  by (simp add: startMicrophone_def startMicrophone_begin_def Let_def)

lemma inv_start_enabled: "inv s \<Longrightarrow> \<not> startMicBtn_disabled s"
  by (simp add: inv_def globals_ok_def)

lemma inv_startMicrophone_begin: "inv s \<Longrightarrow> inv (startMicrophone_begin s)"
  by (simp add: inv_def handles_ok_startMicrophone_begin globals_ok_startMicrophone_begin)

lemma startMicrophone_Granted_routes:
  assumes "inv s"
  shows "routed_delayed (startMicrophone Granted s) = isDelayEnabled s"
    and "routed_direct (startMicrophone Granted s) = (\<not> isDelayEnabled s)"
    and "analyser_connected (startMicrophone Granted s)"
proof -
  define t where "t = startMicrophone_begin s"
  obtain c where c: "audioContext t = Some c"
    using audioContext_startMicrophone_begin [of s] by (auto simp: t_def)
  have i: "inv t" using assms by (simp add: t_def inv_startMicrophone_begin)
  have d: "isDelayEnabled t = isDelayEnabled s"
    by (simp add: t_def startMicrophone_begin_frame)
  have fresh: "\<And>b. (MediaStreamSource (Suc (next_id t)), b) \<notin> connections t"
  proof -
    fix b
    have "edges_below (next_id t) (connections t)"
      using i by (simp add: inv_def handles_ok_def)
    then show "(MediaStreamSource (Suc (next_id t)), b) \<notin> connections t"
      by (auto simp: edges_below_def)
  qed
  note unf = startMicrophone_def startMicrophone_resume_def Let_def
    startMicrophone_try_returns [where c = c] c t_def [symmetric]
  show "routed_delayed (startMicrophone Granted s) = isDelayEnabled s"
    by (simp add: unf routed_delayed_def d [symmetric] fresh)
  show "routed_direct (startMicrophone Granted s) = (\<not> isDelayEnabled s)"
    by (simp add: unf routed_direct_def d [symmetric] fresh)
  show "analyser_connected (startMicrophone Granted s)"
    by (simp add: unf analyser_connected_def)
qed

text \<open>
  Claim C9. \<^verbatim>\<open>stopMicrophone\<close> leaves \<^verbatim>\<open>isDelayEnabled\<close> as it is. From a state of the
  invariant, after a start, \<open>n\<close> toggles, a stop and a second start, the microphone is
  active, the mode is the one the toggles left (the mode before, flipped when \<open>n\<close> is
  odd), and the new capture source is routed by it: through the delay node when the
  mode is on, direct when it is off.
\<close>

theorem C9_mode_survives_stop:
  "isDelayEnabled (state_of (stopMicrophone s)) = isDelayEnabled s \<and>
   (inv s \<longrightarrow>
      isDelayEnabled (run ([StartClick, GumSettled Granted] @ replicate n ToggleClick) s) =
        (isDelayEnabled s \<noteq> odd n) \<and>
      isDelayEnabled (run ([StartClick, GumSettled Granted] @ replicate n ToggleClick @
                          [StopClick, StartClick, GumSettled Granted]) s) =
        isDelayEnabled (run ([StartClick, GumSettled Granted] @ replicate n ToggleClick) s) \<and>
      mic_active (run ([StartClick, GumSettled Granted] @ replicate n ToggleClick @
                          [StopClick, StartClick, GumSettled Granted]) s) \<and>
      routed_delayed (run ([StartClick, GumSettled Granted] @ replicate n ToggleClick @
                          [StopClick, StartClick, GumSettled Granted]) s) =
        isDelayEnabled (run ([StartClick, GumSettled Granted] @ replicate n ToggleClick) s) \<and>
      routed_direct (run ([StartClick, GumSettled Granted] @ replicate n ToggleClick @
                          [StopClick, StartClick, GumSettled Granted]) s) =
        (\<not> isDelayEnabled (run ([StartClick, GumSettled Granted] @ replicate n ToggleClick) s)))"
proof (intro conjI impI)
  show "isDelayEnabled (state_of (stopMicrophone s)) = isDelayEnabled s"
    by (rule isDelayEnabled_stopMicrophone)
next
  assume i: "inv s"
  define s1 where "s1 = startMicrophone Granted s"
  define s2 where "s2 = run ([StartClick, GumSettled Granted] @ replicate n ToggleClick) s"
  define s3 where "s3 = state_of (stopMicrophone s2)"
  have s2: "s2 = run (replicate n ToggleClick) s1"
    unfolding s2_def s1_def
    by (simp only: run_append run_start_granted [OF inv_start_enabled [OF i]])
  have t1: "\<not> toggleDelayBtn_disabled s1" and p1: "\<not> stopMicBtn_disabled s1"
    by (simp_all add: s1_def startMicrophone_Granted_controls)
  have p2: "\<not> stopMicBtn_disabled s2"
    using run_toggles(3) [OF t1, of n] p1 by (simp add: s2)
  have i2: "inv s2" unfolding s2_def by (rule inv_run [OF i])
  have "inv (handle StopClick s2)" using i2 by (rule inv_handle)
  then have i3: "inv s3" using p2 by (simp add: s3_def)
  have fin: "run ([StartClick, GumSettled Granted] @ replicate n ToggleClick @
                  [StopClick, StartClick, GumSettled Granted]) s = startMicrophone Granted s3"
  proof -
    have "run ([StartClick, GumSettled Granted] @ replicate n ToggleClick @
                  [StopClick, StartClick, GumSettled Granted]) s =
          run [StopClick, StartClick, GumSettled Granted] s2"
      unfolding s2_def by (simp only: run_append append_assoc [symmetric])
    also have "\<dots> = run [StartClick, GumSettled Granted] (handle StopClick s2)"
      by (simp only: run.simps)
    also have "\<dots> = run [StartClick, GumSettled Granted] s3"
      using p2 by (simp only: handle.simps s3_def if_False)
    finally show ?thesis
      by (simp only: run_start_granted [OF inv_start_enabled [OF i3]])
  qed
  have m3: "isDelayEnabled s3 = isDelayEnabled s2"
    by (simp add: s3_def isDelayEnabled_stopMicrophone)
  show "isDelayEnabled s2 = (isDelayEnabled s \<noteq> odd n)"
    using run_toggles(1) [OF t1, of n]
    by (simp add: s2 s1_def startMicrophone_Granted_controls)
  show "isDelayEnabled (run ([StartClick, GumSettled Granted] @ replicate n ToggleClick @
                  [StopClick, StartClick, GumSettled Granted]) s) = isDelayEnabled s2"
    by (simp only: fin startMicrophone_Granted_controls m3)
  show "mic_active (run ([StartClick, GumSettled Granted] @ replicate n ToggleClick @
                  [StopClick, StartClick, GumSettled Granted]) s)"
    by (simp only: fin startMicrophone_Granted_controls)
  show "routed_delayed (run ([StartClick, GumSettled Granted] @ replicate n ToggleClick @
                  [StopClick, StartClick, GumSettled Granted]) s) = isDelayEnabled s2"
    by (simp only: fin startMicrophone_Granted_routes [OF i3] m3)
  show "routed_direct (run ([StartClick, GumSettled Granted] @ replicate n ToggleClick @
                  [StopClick, StartClick, GumSettled Granted]) s) = (\<not> isDelayEnabled s2)"
    by (simp only: fin startMicrophone_Granted_routes [OF i3] m3)
qed

theorem C9_mode_survives_stop_witness:
  "inv initial_state \<and>
   isDelayEnabled (run ([StartClick, GumSettled Granted] @ replicate 3 ToggleClick) initial_state) \<and>
   routed_delayed (run ([StartClick, GumSettled Granted] @ replicate 3 ToggleClick @
                        [StopClick, StartClick, GumSettled Granted]) initial_state) \<and>
   \<not> routed_direct (run ([StartClick, GumSettled Granted] @ replicate 3 ToggleClick @
                        [StopClick, StartClick, GumSettled Granted]) initial_state)"
proof -
  have z: "\<not> isDelayEnabled initial_state" by (simp add: initial_state_def)
  note t = C9_mode_survives_stop [of initial_state 3, THEN conjunct2, rule_format,
      OF inv_initial_state]
  from t z have m: "isDelayEnabled
      (run ([StartClick, GumSettled Granted] @ replicate 3 ToggleClick) initial_state)"
    by simp
  from t m have "routed_delayed (run ([StartClick, GumSettled Granted] @ replicate 3 ToggleClick @
                        [StopClick, StartClick, GumSettled Granted]) initial_state)"
    and "\<not> routed_direct (run ([StartClick, GumSettled Granted] @ replicate 3 ToggleClick @
                        [StopClick, StartClick, GumSettled Granted]) initial_state)"
    by (simp_all only: simp_thms)
  with m inv_initial_state show ?thesis by (simp only: simp_thms)
qed

subsection \<open>The context after a refused start\<close>

lemma audioContext_kept_ensureAudioContext:
  "audioContext s = Some c \<Longrightarrow> audioContext (ensureAudioContext s) = Some c"
  by (simp add: ensureAudioContext_def)

lemma audioContext_kept_startMicrophone_resume:
  assumes "audioContext s = Some c"
  shows "audioContext (startMicrophone_resume r s) = Some c"
proof (cases r)
  case Granted
  then show ?thesis
    using assms
    by (simp add: startMicrophone_resume_def Let_def startMicrophone_try_returns [where c = c])
next
  case Denied
  then show ?thesis
    using assms by (simp add: startMicrophone_resume_def startMicrophone_catch_def call_def)
qed

lemma audioContext_kept_handle:
  assumes "audioContext s = Some c"
  shows "audioContext (handle e s) = Some c"
proof (cases e)
  case DragOver
  then show ?thesis using assms by (simp add: dragover_def)
next
  case DragLeave
  then show ?thesis using assms by (simp add: dragleave_def)
next
  case (Drop files)
  then show ?thesis
    using assms by (simp add: drop_handler_def call_def Let_def split: list.split)
next
  case ReaderLoaded
  then show ?thesis
    using assms by (simp add: reader_onload_def ensureAudioContext_def call_def Let_def)
next
  case (DecodeSettled r)
  then show ?thesis
    using assms by (simp add: decode_callback_def call_def Let_def split: decode_result.split)
next
  case StartClick
  then show ?thesis
    using assms by (simp add: startMicrophone_begin_def ensureAudioContext_def call_def Let_def)
next
  case (GumSettled r)
  then show ?thesis using assms by (simp add: audioContext_kept_startMicrophone_resume)
next
  case StopClick
  then show ?thesis
    using assms by (simp add: stopMicrophone_def call_def Let_def split: option.split)
next
  case ToggleClick
  then show ?thesis
    using assms by (simp add: toggleDelay_def prim_defs Let_def split: option.split)
next
  case PlayClick
  then show ?thesis
    using assms by (simp add: playDroppedAudio_def prim_defs Let_def split: option.split)
next
  case (AnimationFrame h)
  then show ?thesis
    using assms by (simp add: drawWaveform_def call_def Let_def split: option.split)
next
  case (PlaybackEnded p)
  then show ?thesis using assms by simp
qed

lemma audioContext_kept_run:
  "audioContext s = Some c \<Longrightarrow> audioContext (run es s) = Some c"
  by (induction es arbitrary: s) (simp_all add: audioContext_kept_handle)

text \<open>
  Claim C10. The part of \<^verbatim>\<open>startMicrophone\<close> that runs before the request creates the
  context when there is none, and the call that creates it comes before the call of
  \<^verbatim>\<open>getUserMedia\<close>. A refused request leaves that context in place and the buttons
  as they were, and no later event removes it. On the freshly loaded page there is no
  context before the click and there is one after the refusal, with the stop and toggle
  buttons still disabled.
\<close>

theorem C10_failed_start_keeps_context:
  "audioContext (startMicrophone_begin s) \<noteq> None \<and>
   calls (startMicrophone_begin s) =
     calls s @ (if audioContext s = None then [NewAudioContext (next_id s)] else []) @
     [GetUserMedia] \<and>
   audioContext (startMicrophone Denied s) = audioContext (startMicrophone_begin s) \<and>
   (\<forall>es. audioContext (run es (startMicrophone Denied s)) =
           audioContext (startMicrophone Denied s)) \<and>
   startMicBtn_disabled (startMicrophone Denied s) = startMicBtn_disabled s \<and>
   stopMicBtn_disabled (startMicrophone Denied s) = stopMicBtn_disabled s \<and>
   toggleDelayBtn_disabled (startMicrophone Denied s) = toggleDelayBtn_disabled s \<and>
   playAudioBtn_disabled (startMicrophone Denied s) = playAudioBtn_disabled s \<and>
   audioContext initial_state = None \<and>
   audioContext (startMicrophone Denied initial_state) = Some 1 \<and>
   stopMicBtn_disabled (startMicrophone Denied initial_state) \<and>
   toggleDelayBtn_disabled (startMicrophone Denied initial_state) \<and>
   \<not> mic_active (startMicrophone Denied initial_state)"
proof -
  have d: "audioContext (startMicrophone Denied s) = audioContext (startMicrophone_begin s)"
    by (simp add: startMicrophone_Denied)
  obtain c where c: "audioContext (startMicrophone Denied s) = Some c"
    using audioContext_startMicrophone_begin [of s] d by auto
  have p: "\<forall>es. audioContext (run es (startMicrophone Denied s)) =
           audioContext (startMicrophone Denied s)"
    using audioContext_kept_run [OF c] c by simp
  have init: "audioContext initial_state = None"
    "audioContext (startMicrophone Denied initial_state) = Some 1"
    "stopMicBtn_disabled (startMicrophone Denied initial_state)"
    "toggleDelayBtn_disabled (startMicrophone Denied initial_state)"
    "\<not> mic_active (startMicrophone Denied initial_state)"
    by code_simp+
  show ?thesis
    using d p init
    by (simp add: audioContext_startMicrophone_begin startMicrophone_begin_calls
        startMicrophone_Denied startMicrophone_begin_frame)
qed

theorem C10_failed_start_keeps_context_witness:
  "audioContext initial_state = None \<and>
   audioContext (run [StartClick, GumSettled Granted, ToggleClick, StopClick] (startMicrophone Denied initial_state)) =
     Some 1 \<and>
   calls (startMicrophone_begin initial_state) = [NewAudioContext 1, GetUserMedia]"
proof -
  note t = C10_failed_start_keeps_context [of initial_state]
  from t have a: "audioContext initial_state = None" by blast
  from t have b: "audioContext (startMicrophone Denied initial_state) = Some 1" by blast
  from t have "\<forall>es. audioContext (run es (startMicrophone Denied initial_state)) =
      audioContext (startMicrophone Denied initial_state)"
    by blast
  then have c: "audioContext (run [StartClick, GumSettled Granted, ToggleClick, StopClick]
      (startMicrophone Denied initial_state)) = Some 1"
    using b by (simp only:)
  from t have "calls (startMicrophone_begin initial_state) =
     calls initial_state @
     (if audioContext initial_state = None then [NewAudioContext (next_id initial_state)] else []) @
     [GetUserMedia]"
    by blast
  then have d: "calls (startMicrophone_begin initial_state) = [NewAudioContext 1, GetUserMedia]"
    using a by (simp add: initial_state_def)
  from a c d show ?thesis by blast
qed

end
